theory Spec2Isabelle
  imports Complex_Main
begin

section \<open>Data model of the invoice server\<close>

text \<open>
  The server keeps the \<open>RateLimit\<close> and \<open>Invoice\<close> collections in the document store,
  the generated files in the directory \<open>pdfs\<close>, and the in-process map \<open>sseClients\<close>.
  Object ids and user ids are the strings that the token, the URL and the file names
  carry; they stand for well-formed ids. A \<open>Date\<close> is its time value, an integer number
  of milliseconds. A storage call that rejects is a boolean outcome given to the
  operation, so that every \<open>catch\<close> of the source is a branch here.
\<close>

type_synonym objectId = string

text \<open>
  \<open>rateLimitSchema\<close>: \<open>count\<close> starts at 0 and is only ever incremented or set back to 0,
  so it is a natural number. The \<open>userId\<close> field is the key of the collection below.
\<close>

record rateLimitDoc =
  count :: nat
  resetTime :: int

text \<open>The \<open>RateLimit\<close> collection, as \<open>findOne({ userId })\<close> reads it.\<close>

type_synonym rateLimits = "objectId \<rightharpoonup> rateLimitDoc"

text \<open>
  What the middleware \<open>checkRateLimit\<close> does with the request: \<open>next()\<close> admits it,
  status 429 rejects it with the announced number of seconds, status 500 answers a
  storage error caught by the handler.
\<close>

datatype decision = Allow | Deny int | InternalError

text \<open>The \<open>enum\<close> of \<open>invoiceSchema.status\<close>.\<close>

datatype status = Processing | Ready | Failed

text \<open>
  \<open>invoiceSchema\<close>, with the fields the handlers read or write. The dates, the line items
  and the amounts are stored at creation and never touched again; they are left out.
  \<open>inv_id\<close> is the field \<open>_id\<close>.
\<close>

record invoice =
  inv_id :: objectId
  userId :: objectId
  clientName :: string
  clientEmail :: string
  invoiceNumber :: string
  status :: status
  pdfPath :: "string option"

text \<open>The request body of \<open>POST /api/invoices\<close>, likewise.\<close>

record body =
  bodyClientName :: string
  bodyClientEmail :: string
  bodyInvoiceNumber :: string

text \<open>The payloads given to \<open>sendSSEUpdate\<close> and the greeting of \<open>/api/sse\<close>.\<close>

datatype sseEvent = Connected | InvoiceReady objectId | InvoiceFailed objectId

text \<open>
  The state of the server. \<open>invoiceDb\<close> is the \<open>Invoice\<close> collection by \<open>_id\<close>; \<open>pdfs\<close> the
  names of the files in the directory \<open>pdfs\<close>; \<open>sseClients\<close> maps a user to the response
  object of the open event stream (a connection number); \<open>written\<close> lists what has been
  written to which connection; \<open>timers\<close> holds the invoices whose generation
  \<open>setTimeout\<close> has scheduled.
\<close>

record server =
  rateLimitDb :: rateLimits
  invoiceDb :: "objectId \<rightharpoonup> invoice"
  pdfs :: "string set"
  sseClients :: "objectId \<rightharpoonup> nat"
  written :: "(nat \<times> sseEvent) list"
  timers :: "invoice list"

text \<open>
  The answers of the two invoice routes: 201 with the invoice, 429 with the seconds
  quoted in its message, an error status with its \<open>error\<close> text, and the streamed file
  with the file name of its \<open>Content-Disposition\<close>.
\<close>

datatype response =
    Created invoice
  | RateLimitExceeded int
  | Error nat string
  | Attachment string string

text \<open>How a call of an \<open>async\<close> function ends.\<close>

datatype completion = Resolved | Rejected

section \<open>The rate limiter\<close>

text \<open>
  \<open>Math.ceil((resetTime - now) / 1000)\<close> on an integer number of milliseconds.
\<close>

definition timeLeft :: "int \<Rightarrow> int \<Rightarrow> int" where
  "timeLeft reset now = - ((- (reset - now)) div 1000)"

text \<open>
  \<open>RateLimit.findOne({ userId })\<close>, and a fresh document when there is none. The fresh
  document is only in memory until it is saved.
\<close>

definition findOrNew :: "objectId \<Rightarrow> int \<Rightarrow> rateLimits \<Rightarrow> rateLimitDoc" where
  "findOrNew uid now db =
     (case db uid of
        None \<Rightarrow> \<lparr>count = 0, resetTime = now + 60000\<rparr>
      | Some userRateLimit \<Rightarrow> userRateLimit)"

text \<open>``Reset count if time window has passed'': the test is \<open>now > resetTime\<close>.\<close>

definition resetIfPassed :: "int \<Rightarrow> rateLimitDoc \<Rightarrow> rateLimitDoc" where
  "resetIfPassed now userRateLimit =
     (if now > resetTime userRateLimit
      then userRateLimit\<lparr>count := 0, resetTime := now + 60000\<rparr>
      else userRateLimit)"

text \<open>
  The rest of the middleware, on the document held in memory: reset, compare with 5,
  and either answer 429 or increment and save. \<open>saveOk\<close> is whether \<open>save()\<close> resolves.
\<close>

definition decideAndSave ::
  "objectId \<Rightarrow> int \<Rightarrow> bool \<Rightarrow> rateLimitDoc \<Rightarrow> rateLimits \<Rightarrow> decision \<times> rateLimits" where
  "decideAndSave uid now saveOk fetched db =
     (let userRateLimit = resetIfPassed now fetched in
      if count userRateLimit \<ge> 5
      then (Deny (timeLeft (resetTime userRateLimit) now), db)
      else if saveOk
      then (Allow, db(uid \<mapsto> userRateLimit\<lparr>count := count userRateLimit + 1\<rparr>))
      else (InternalError, db))"

text \<open>
  The middleware as one request runs it. \<open>findOk\<close> is whether \<open>findOne\<close> resolves; a
  rejected storage call is caught and answered with status 500.
\<close>

definition checkRateLimit ::
  "objectId \<Rightarrow> int \<Rightarrow> bool \<Rightarrow> bool \<Rightarrow> rateLimits \<Rightarrow> decision \<times> rateLimits" where
  "checkRateLimit uid now findOk saveOk db =
     (if findOk then decideAndSave uid now saveOk (findOrNew uid now db) db
      else (InternalError, db))"

text \<open>A user's requests at the given times, one after the other, the storage working.\<close>

fun checkRateLimits :: "objectId \<Rightarrow> int list \<Rightarrow> rateLimits \<Rightarrow> decision list \<times> rateLimits" where
  "checkRateLimits uid [] db = ([], db)"
| "checkRateLimits uid (now # later) db =
     (let (d, db') = checkRateLimit uid now True True db;
          (ds, db'') = checkRateLimits uid later db'
      in (d # ds, db''))"



text \<open>
  Two requests of one user in flight together. Each handler suspends at
  \<open>await RateLimit.findOne\<close> and at \<open>await userRateLimit.save()\<close>; here both reads are
  answered before either handler goes on to compare and save.
\<close>

definition checkRateLimitOverlapped ::
  "objectId \<Rightarrow> int \<Rightarrow> int \<Rightarrow> rateLimits \<Rightarrow> decision \<times> decision \<times> rateLimits" where
  "checkRateLimitOverlapped uid now1 now2 db =
     (let fetched1 = findOrNew uid now1 db;
          fetched2 = findOrNew uid now2 db;
          (d1, db1) = decideAndSave uid now1 True fetched1 db;
          (d2, db2) = decideAndSave uid now2 True fetched2 db1
      in (d1, d2, db2))"

section \<open>The event streams\<close>

text \<open>
  \<open>sendSSEUpdate\<close>: look the user's connection up; if there is one, write the event to it,
  and if the write throws, log the error and delete the registration. \<open>writeOk\<close> is
  whether \<open>client.write\<close> returns.
\<close>

definition sendSSEUpdate :: "objectId \<Rightarrow> sseEvent \<Rightarrow> bool \<Rightarrow> server \<Rightarrow> server" where
  "sendSSEUpdate uid data writeOk s =
     (case sseClients s uid of
        None \<Rightarrow> s
      | Some client \<Rightarrow>
          if writeOk then s\<lparr>written := written s @ [(client, data)]\<rparr>
          else s\<lparr>sseClients := (sseClients s)(uid := None)\<rparr>)"

section \<open>Creating an invoice\<close>

text \<open>
  The handler of \<open>POST /api/invoices\<close> behind the rate limiter: build the invoice with
  status \<open>processing\<close>, save it, schedule the generation and answer 201. \<open>newId\<close> is the
  \<open>_id\<close> the document is given; \<open>saveOk\<close> is whether \<open>invoice.save()\<close> resolves (it rejects
  on a validation or a storage error, which the handler answers with 500).
\<close>

definition createInvoice :: "objectId \<Rightarrow> body \<Rightarrow> objectId \<Rightarrow> bool \<Rightarrow> server \<Rightarrow> response \<times> server" where
  "createInvoice uid b newId saveOk s =
     (let invoice = \<lparr>inv_id = newId, userId = uid, clientName = bodyClientName b,
                      clientEmail = bodyClientEmail b, invoiceNumber = bodyInvoiceNumber b,
                      status = Processing, pdfPath = None\<rparr>
      in if saveOk
         then (Created invoice,
               s\<lparr>invoiceDb := (invoiceDb s)(newId \<mapsto> invoice), timers := timers s @ [invoice]\<rparr>)
         else (Error 500 ''Internal server error'', s))"

text \<open>The outcomes of the storage calls of one \<open>POST /api/invoices\<close>, and the new id.\<close>

record postEnv =
  findOk :: bool
  limitSaveOk :: bool
  newId :: objectId
  invoiceSaveOk :: bool

text \<open>The route: \<open>checkRateLimit\<close>, then the handler if the middleware called \<open>next()\<close>.\<close>

definition postInvoices :: "objectId \<Rightarrow> int \<Rightarrow> body \<Rightarrow> postEnv \<Rightarrow> server \<Rightarrow> response \<times> server" where
  "postInvoices uid now b e s =
     (let (d, db') = checkRateLimit uid now (findOk e) (limitSaveOk e) (rateLimitDb s);
          s1 = s\<lparr>rateLimitDb := db'\<rparr>
      in case d of
           Allow \<Rightarrow> createInvoice uid b (newId e) (invoiceSaveOk e) s1
         | Deny seconds \<Rightarrow> (RateLimitExceeded seconds, s1)
         | InternalError \<Rightarrow> (Error 500 ''Internal server error'', s1))"

text \<open>
  A user's requests one after the other; each entry of the result pairs the decision of
  the rate limiter with the answer of the route.
\<close>

fun postAll ::
  "objectId \<Rightarrow> (int \<times> body \<times> postEnv) list \<Rightarrow> server \<Rightarrow> (decision \<times> response) list \<times> server" where
  "postAll uid [] s = ([], s)"
| "postAll uid ((now, b, e) # later) s =
     (let d = fst (checkRateLimit uid now (findOk e) (limitSaveOk e) (rateLimitDb s));
          (r, s') = postInvoices uid now b e s;
          (drs, s'') = postAll uid later s'
      in ((d, r) # drs, s''))"

definition isCreated :: "response \<Rightarrow> bool" where
  "isCreated r = (case r of Created invoice \<Rightarrow> True | _ \<Rightarrow> False)"

section \<open>Generating the file\<close>

text \<open>The file name \<open>`invoice-${invoice._id}.pdf`\<close>.\<close>

definition filename :: "invoice \<Rightarrow> string" where
  "filename invoice = ''invoice-'' @ inv_id invoice @ ''.pdf''"

text \<open>
  The end of \<open>generatePDF\<close> (``Update invoice with PDF path'') on the invoice held in
  memory, and the assignment of the \<open>catch\<close> branch of the timer callback. Neither reads
  the current status.
\<close>

definition markReady :: "invoice \<Rightarrow> invoice" where
  "markReady invoice = invoice\<lparr>pdfPath := Some (filename invoice), status := Ready\<rparr>"

definition markFailed :: "invoice \<Rightarrow> invoice" where
  "markFailed invoice = invoice\<lparr>status := Failed\<rparr>"

text \<open>\<open>invoice.save()\<close> of an invoice that exists: the stored document becomes the one in memory.\<close>

definition saveInvoice :: "invoice \<Rightarrow> server \<Rightarrow> server" where
  "saveInvoice invoice s = s\<lparr>invoiceDb := (invoiceDb s)(inv_id invoice \<mapsto> invoice)\<rparr>"

text \<open>
  The outcomes of one run of the timer callback: whether the rendering in the \<open>try\<close>
  block writes the file, whether the fallback in its \<open>catch\<close> does, whether the two
  \<open>save()\<close> calls resolve, and whether \<open>client.write\<close> returns.
\<close>

record jobEnv =
  renderOk :: bool
  fallbackOk :: bool
  readySaveOk :: bool
  failedSaveOk :: bool
  writeOk :: bool

text \<open>
  \<open>generatePDF\<close>: render and write the file (by the fallback if the first attempt
  throws), then mark the invoice ready and save it. The invoice is changed in memory
  before \<open>save()\<close> is awaited, so a rejected save leaves the changes in the object the
  caller holds. The result is how the call ended, the invoice in memory, and the state.
\<close>

definition generatePDF :: "invoice \<Rightarrow> jobEnv \<Rightarrow> server \<Rightarrow> completion \<times> invoice \<times> server" where
  "generatePDF invoice e s =
     (if renderOk e \<or> fallbackOk e
      then (let s1 = s\<lparr>pdfs := insert (filename invoice) (pdfs s)\<rparr>;
                invoice' = markReady invoice
            in if readySaveOk e then (Resolved, invoice', saveInvoice invoice' s1)
               else (Rejected, invoice', s1))
      else (Rejected, invoice, s))"

text \<open>
  The callback given to \<open>setTimeout\<close>, for the user \<open>uid\<close> of the request and the invoice
  it created: \<open>generatePDF\<close> and the \<open>invoice_ready\<close> event, or in the \<open>catch\<close> branch the
  status \<open>failed\<close>, the save and the \<open>invoice_failed\<close> event. If that save rejects too, the
  callback ends there.
\<close>

definition runJob :: "objectId \<Rightarrow> invoice \<Rightarrow> jobEnv \<Rightarrow> server \<Rightarrow> invoice \<times> server" where
  "runJob uid invoice e s =
     (case generatePDF invoice e s of
        (Resolved, invoice', s') \<Rightarrow>
          (invoice', sendSSEUpdate uid (InvoiceReady (inv_id invoice)) (writeOk e) s')
      | (Rejected, invoice', s') \<Rightarrow>
          (let invoice'' = markFailed invoice'
           in if failedSaveOk e
              then (invoice'',
                    sendSSEUpdate uid (InvoiceFailed (inv_id invoice)) (writeOk e)
                      (saveInvoice invoice'' s'))
              else (invoice'', s')))"

text \<open>The invariant of the data model: the file reference is there exactly on a ready invoice.\<close>

definition artifactIffReady :: "invoice \<Rightarrow> bool" where
  "artifactIffReady invoice = ((pdfPath invoice \<noteq> None) = (status invoice = Ready))"

section \<open>Downloading the file\<close>

text \<open>\<open>Invoice.findOne({ _id: req.params.id, userId: req.user.userId })\<close>.\<close>

definition findInvoice :: "objectId \<Rightarrow> objectId \<Rightarrow> (objectId \<rightharpoonup> invoice) \<Rightarrow> invoice option" where
  "findInvoice jid uid db =
     (case db jid of
        None \<Rightarrow> None
      | Some invoice \<Rightarrow> if userId invoice = uid then Some invoice else None)"

text \<open>
  The \<open>_id\<close> of the query is the string \<open>req.params.id\<close>, which the query casts to an
  ObjectId; for a string that does not cast, \<open>findOne\<close> rejects. Which strings are
  well-formed is the rule of the document library, not of this code, and is a parameter
  here. The ids of the stored invoices are ObjectIds, so their strings cast.
\<close>

definition castsToObjectId :: "(string \<Rightarrow> bool) \<Rightarrow> (objectId \<rightharpoonup> invoice) \<Rightarrow> string \<Rightarrow> bool" where
  "castsToObjectId wellFormed db jid = (wellFormed jid \<or> db jid \<noteq> None)"

text \<open>
  The handler of \<open>GET /api/invoices/:id/download\<close> for the authenticated user \<open>uid\<close>.
  A rejected \<open>findOne\<close> (the id does not cast, or the storage fails: \<open>lookupOk\<close> is
  whether the storage answers) is caught and answered with 500.
  \<open>!invoice.pdfPath\<close> holds of a missing and of an empty path. \<open>fs.existsSync\<close> is
  membership in \<open>pdfs\<close>.
\<close>

definition download ::
  "(string \<Rightarrow> bool) \<Rightarrow> string \<Rightarrow> objectId \<Rightarrow> bool \<Rightarrow> server \<Rightarrow> response" where
  "download wellFormed jid uid lookupOk s =
     (if \<not> castsToObjectId wellFormed (invoiceDb s) jid \<or> \<not> lookupOk
      then Error 500 ''Internal server error''
      else case findInvoice jid uid (invoiceDb s) of
        None \<Rightarrow> Error 404 ''Invoice not found''
      | Some invoice \<Rightarrow>
          (case pdfPath invoice of
             None \<Rightarrow> Error 400 ''PDF not ready for download''
           | Some path \<Rightarrow>
               if status invoice \<noteq> Ready \<or> path = []
               then Error 400 ''PDF not ready for download''
               else if path \<notin> pdfs s then Error 404 ''PDF file not found''
               else Attachment path (''invoice-'' @ invoiceNumber invoice @ ''.pdf'')))"

section \<open>The server as a whole\<close>

text \<open>
  \<open>GET /api/sse\<close> for an authenticated user: register the response object \<open>res\<close> under the
  user, replacing any earlier one, and write the greeting. On \<open>close\<close> or \<open>error\<close> of the
  request the registration of the user is deleted.
\<close>

definition subscribe :: "objectId \<Rightarrow> nat \<Rightarrow> server \<Rightarrow> server" where
  "subscribe uid res s =
     s\<lparr>sseClients := (sseClients s)(uid \<mapsto> res), written := written s @ [(res, Connected)]\<rparr>"

definition disconnect :: "objectId \<Rightarrow> server \<Rightarrow> server" where
  "disconnect uid s = s\<lparr>sseClients := (sseClients s)(uid := None)\<rparr>"

text \<open>
  What changes the state of the server: a \<open>POST /api/invoices\<close>, the firing of one of the
  pending timers (in any order: the delays are random), the opening and the closing of
  an event stream. A timer fires once; its callback runs for the user and the invoice
  of the request that set it.
\<close>

datatype step =
    Post objectId int body postEnv
  | Fire nat jobEnv
  | Subscribe objectId nat
  | Disconnect objectId

fun serverStep :: "step \<Rightarrow> server \<Rightarrow> server" where
  "serverStep (Post uid now b e) s = snd (postInvoices uid now b e s)"
| "serverStep (Fire i e) s =
     (if i < length (timers s)
      then (let invoice = timers s ! i
            in snd (runJob (userId invoice) invoice e
                 (s\<lparr>timers := take i (timers s) @ drop (Suc i) (timers s)\<rparr>)))
      else s)"
| "serverStep (Subscribe uid res) s = subscribe uid res s"
| "serverStep (Disconnect uid) s = disconnect uid s"

fun run :: "step list \<Rightarrow> server \<Rightarrow> server" where
  "run [] s = s"
| "run (st # sts) s = run sts (serverStep st s)"

text \<open>The \<open>_id\<close> given to a new invoice is not the \<open>_id\<close> of a stored one.\<close>

fun freshId :: "step \<Rightarrow> server \<Rightarrow> bool" where
  "freshId (Post uid now b e) s = (invoiceDb s (newId e) = None)"
| "freshId _ s = True"

fun freshIds :: "step list \<Rightarrow> server \<Rightarrow> bool" where
  "freshIds [] s = True"
| "freshIds (st # sts) s = (freshId st s \<and> freshIds sts (serverStep st s))"

text \<open>
  The invoices of the pending timers are distinct, and each is stored as the callback
  holds it, with status processing.
\<close>

definition pendingProcessing :: "server \<Rightarrow> bool" where
  "pendingProcessing s =
     (distinct (map inv_id (timers s)) \<and>
      list_all (\<lambda>p. invoiceDb s (inv_id p) = Some p \<and> status p = Processing) (timers s))"

text \<open>
  A step in which the \<open>save()\<close> at the end of \<open>generatePDF\<close> is not the call that fails: it
  resolves, or the rendering has failed before it.
\<close>

fun readySaved :: "step \<Rightarrow> bool" where
  "readySaved (Fire i e) = (readySaveOk e \<or> \<not> (renderOk e \<or> fallbackOk e))"
| "readySaved _ = True"

text \<open>The server at start: empty collections, no file, no stream, no timer.\<close>

definition emptyServer :: server where
  "emptyServer = \<lparr>rateLimitDb = Map.empty, invoiceDb = Map.empty, pdfs = {},
     sseClients = Map.empty, written = [], timers = []\<rparr>"

section \<open>Example data\<close>

text \<open>An invoice as \<open>POST /api/invoices\<close> creates it, and a server that holds just this invoice.\<close>

definition exampleInvoice :: invoice where
  "exampleInvoice =
     \<lparr>inv_id = ''j1'', userId = ''userA'', clientName = ''Acme'', clientEmail = ''billing@acme.test'',
      invoiceNumber = ''INV-1'', status = Processing, pdfPath = None\<rparr>"

definition exampleServer :: server where
  "exampleServer =
     \<lparr>rateLimitDb = Map.empty, invoiceDb = [''j1'' \<mapsto> exampleInvoice], pdfs = {},
      sseClients = Map.empty, written = [], timers = [exampleInvoice]\<rparr>"

text \<open>
  A run of the timer callback in which the file is rendered and written, the \<open>save()\<close> at
  the end of \<open>generatePDF\<close> rejects, and the \<open>save()\<close> of the \<open>catch\<close> branch resolves.
\<close>

definition readySaveRejects :: jobEnv where
  "readySaveRejects =
     \<lparr>renderOk = True, fallbackOk = False, readySaveOk = False, failedSaveOk = True, writeOk = True\<rparr>"

text \<open>A request whose storage calls all resolve except the \<open>save()\<close> of the new invoice.\<close>

definition invoiceSaveRejects :: postEnv where
  "invoiceSaveRejects = \<lparr>findOk = True, limitSaveOk = True, newId = ''j2'', invoiceSaveOk = False\<rparr>"

definition exampleBody :: body where
  "exampleBody = \<lparr>bodyClientName = ''Acme'', bodyClientEmail = ''billing@acme.test'',
     bodyInvoiceNumber = ''INV-1''\<rparr>"

text \<open>A request whose storage calls all resolve, and a timer callback whose calls all do.\<close>

definition postResolves :: postEnv where
  "postResolves = \<lparr>findOk = True, limitSaveOk = True, newId = ''j1'', invoiceSaveOk = True\<rparr>"

definition allResolve :: jobEnv where
  "allResolve =
     \<lparr>renderOk = True, fallbackOk = False, readySaveOk = True, failedSaveOk = True, writeOk = True\<rparr>"

text \<open>
  The strings of 24 hexadecimal digits, which are the text form of an ObjectId, and an
  invoice of user A under such an id.
\<close>

definition hexDigit :: "char \<Rightarrow> bool" where
  "hexDigit c = (c \<in> set ''0123456789abcdefABCDEF'')"

definition hexObjectId :: "string \<Rightarrow> bool" where
  "hexObjectId jid = (length jid = 24 \<and> list_all hexDigit jid)"

definition exampleHexInvoice :: invoice where
  "exampleHexInvoice = exampleInvoice\<lparr>inv_id := ''64b7f0c2a1d3e4f5a6b7c8d9''\<rparr>"

section \<open>Properties of the rate limiter\<close>

lemma timeLeft_ceiling: "timeLeft reset now = \<lceil>real_of_int (reset - now) / 1000\<rceil>"
proof -
  define d where "d = reset - now"
  have "real_of_int (- d) / real_of_int 1000 = - (real_of_int d / 1000)"
    by simp
  then have "\<lfloor>- (real_of_int d / 1000)\<rfloor> = (- d) div 1000"
    using floor_divide_of_int_eq [of "- d" 1000, where ?'a = real] by simp
  then have "\<lceil>real_of_int d / 1000\<rceil> = - ((- d) div 1000)"
    by (simp add: ceiling_def)
  then show ?thesis by (simp add: timeLeft_def d_def)
qed


text \<open>A request inside the window of the stored counter neither creates nor resets it.\<close>

lemma checkRateLimit_in_window:
  assumes "db uid = Some c" and "t \<le> resetTime c"
  shows "checkRateLimit uid t True True db =
     (if 5 \<le> count c then (Deny (timeLeft (resetTime c) t), db)
      else (Allow, db(uid \<mapsto> c\<lparr>count := count c + 1\<rparr>)))"
  using assms
  by (simp add: checkRateLimit_def decideAndSave_def findOrNew_def resetIfPassed_def Let_def)







text \<open>As long as the stored count and the requests add up to at most 5, all are admitted.\<close>

lemma allows_after_reset:
  "db uid = Some c \<Longrightarrow> list_all (\<lambda>t. t \<le> resetTime c) ts \<Longrightarrow> count c + length ts \<le> 5 \<Longrightarrow>
   fst (checkRateLimits uid ts db) = replicate (length ts) Allow"
proof (induction ts arbitrary: db c)
  case Nil
  then show ?case by simp
next
  case (Cons t ts)
  let ?c = "c\<lparr>count := count c + 1\<rparr>"
  let ?db = "db(uid \<mapsto> ?c)"
  from Cons.prems have step: "checkRateLimit uid t True True db = (Allow, ?db)"
    by (simp add: checkRateLimit_in_window)
  have "fst (checkRateLimits uid ts ?db) = replicate (length ts) Allow"
    using Cons.prems by (intro Cons.IH [of ?db ?c]) simp_all
  with step show ?case by (simp add: split_beta)
qed

text \<open>
  C5, as the claim states it, fails at the boundary instant. A request at exactly
  \<open>now = resetTime\<close> with the count at 5 does not reset the counter: it is rejected,
  announcing 0 seconds, and the stored counter stays as it was.
\<close>

theorem reset_at_boundary_counterexample:
  "(60000::int) \<ge> resetTime \<lparr>count = 5, resetTime = 60000\<rparr> \<and>
   resetIfPassed 60000 \<lparr>count = 5, resetTime = 60000\<rparr> = \<lparr>count = 5, resetTime = 60000\<rparr> \<and>
   checkRateLimit ''userA'' 60000 True True [''userA'' \<mapsto> \<lparr>count = 5, resetTime = 60000\<rparr>]
     = (Deny 0, [''userA'' \<mapsto> \<lparr>count = 5, resetTime = 60000\<rparr>])"
  by (simp add: checkRateLimit_def decideAndSave_def findOrNew_def resetIfPassed_def timeLeft_def)

text \<open>
  C5, amended. For every request at a time strictly after the reset time of the stored
  counter, the request first resets the counter (count 0, reset time \<open>now + 60000\<close>), so
  it is admitted and stored with count 1, and together with it up to 5 requests are
  admitted in the new window.
\<close>

theorem reset_after_window:
  assumes "db uid = Some c" and "now > resetTime c"
  shows "resetIfPassed now (findOrNew uid now db) = \<lparr>count = 0, resetTime = now + 60000\<rparr> \<and>
         checkRateLimit uid now True True db
           = (Allow, db(uid \<mapsto> \<lparr>count = 1, resetTime = now + 60000\<rparr>)) \<and>
         (\<forall>ts. length ts \<le> 4 \<and> list_all (\<lambda>t. t \<le> now + 60000) ts \<longrightarrow>
            fst (checkRateLimits uid (now # ts) db) = replicate (Suc (length ts)) Allow)"
proof (intro conjI allI impI)
  show "resetIfPassed now (findOrNew uid now db) = \<lparr>count = 0, resetTime = now + 60000\<rparr>"
    using assms by (cases c) (simp add: resetIfPassed_def findOrNew_def)
  show step: "checkRateLimit uid now True True db
           = (Allow, db(uid \<mapsto> \<lparr>count = 1, resetTime = now + 60000\<rparr>))"
    using assms
    by (cases c) (simp add: checkRateLimit_def decideAndSave_def resetIfPassed_def findOrNew_def)
  fix ts :: "int list"
  assume ts: "length ts \<le> 4 \<and> list_all (\<lambda>t. t \<le> now + 60000) ts"
  let ?c = "\<lparr>count = 1, resetTime = now + 60000\<rparr>"
  have "fst (checkRateLimits uid ts (db(uid \<mapsto> ?c))) = replicate (length ts) Allow"
    using ts by (intro allows_after_reset [of _ _ ?c]) simp_all
  with step show "fst (checkRateLimits uid (now # ts) db) = replicate (Suc (length ts)) Allow"
    by (simp add: split_beta)
qed

text \<open>
  One millisecond after the reset time the exhausted counter is reset, and five requests
  up to the new reset time are admitted.
\<close>

theorem reset_after_window_witness:
  "[''userA'' \<mapsto> \<lparr>count = 5, resetTime = 60000\<rparr>] ''userA'' = Some \<lparr>count = 5, resetTime = 60000\<rparr> \<and>
   (60001::int) > resetTime \<lparr>count = 5, resetTime = 60000\<rparr> \<and>
   checkRateLimit ''userA'' 60001 True True [''userA'' \<mapsto> \<lparr>count = 5, resetTime = 60000\<rparr>]
     = (Allow, [''userA'' \<mapsto> \<lparr>count = 1, resetTime = 120001\<rparr>]) \<and>
   fst (checkRateLimits ''userA'' [60001, 60002, 60003, 60004, 120001]
          [''userA'' \<mapsto> \<lparr>count = 5, resetTime = 60000\<rparr>])
     = [Allow, Allow, Allow, Allow, Allow]"
proof -
  have a: "[''userA'' \<mapsto> \<lparr>count = 5, resetTime = 60000\<rparr>] ''userA''
             = Some \<lparr>count = 5, resetTime = 60000\<rparr>"
    by simp
  have b: "(60001::int) > resetTime \<lparr>count = 5, resetTime = 60000\<rparr>"
    by simp
  have c: "length [60002, 60003, 60004, 120001::int] \<le> 4 \<and>
           list_all (\<lambda>t. t \<le> 60001 + 60000) [60002, 60003, 60004, 120001::int]"
    by simp
  from reset_after_window [of "[''userA'' \<mapsto> \<lparr>count = 5, resetTime = 60000\<rparr>]" "''userA''"
      "\<lparr>count = 5, resetTime = 60000\<rparr>" 60001] c a b show ?thesis
    by (simp del: checkRateLimits.simps)
qed

text \<open>The 429 branch returns before anything is saved.\<close>

lemma checkRateLimit_Deny_unchanged:
  "checkRateLimit uid now fOk sOk db = (Deny seconds, db') \<Longrightarrow> db' = db"
  by (auto simp add: checkRateLimit_def decideAndSave_def Let_def split: if_splits)

text \<open>
  C6. Whenever the rate limiter rejects a request, nothing is written: the \<open>RateLimit\<close>
  collection is as before, and the route that answers 429 leaves the whole server
  state unchanged, so no invoice is created and no generation scheduled.
\<close>

theorem deny_mutates_nothing:
  "(checkRateLimit uid now fOk sOk db = (Deny seconds, db') \<longrightarrow> db' = db) \<and>
   (fst (postInvoices uid now b e s) = RateLimitExceeded seconds \<longrightarrow>
      snd (postInvoices uid now b e s) = s)"
proof (intro conjI impI)
  assume "checkRateLimit uid now fOk sOk db = (Deny seconds, db')"
  then show "db' = db" by (rule checkRateLimit_Deny_unchanged)
next
  assume r: "fst (postInvoices uid now b e s) = RateLimitExceeded seconds"
  obtain d db' where c: "checkRateLimit uid now (findOk e) (limitSaveOk e) (rateLimitDb s) = (d, db')"
    by (cases "checkRateLimit uid now (findOk e) (limitSaveOk e) (rateLimitDb s)")
  show "snd (postInvoices uid now b e s) = s"
  proof (cases d)
    case Allow
    with r c show ?thesis
      by (simp add: postInvoices_def createInvoice_def Let_def split: if_splits)
  next
    case (Deny k)
    with c have "db' = rateLimitDb s" by (simp add: checkRateLimit_Deny_unchanged)
    with c Deny show ?thesis
      by (simp add: postInvoices_def)
  next
    case InternalError
    with r c show ?thesis
      by (simp add: postInvoices_def)
  qed
qed

text \<open>A user whose count is at 5 asks 1 second into the window: 429, and the state is as before.\<close>

theorem deny_mutates_nothing_witness:
  "checkRateLimit ''userA'' 1000 True True [''userA'' \<mapsto> \<lparr>count = 5, resetTime = 60000\<rparr>]
     = (Deny 59, [''userA'' \<mapsto> \<lparr>count = 5, resetTime = 60000\<rparr>]) \<and>
   fst (postInvoices ''userA'' 1000 exampleBody invoiceSaveRejects
          (exampleServer\<lparr>rateLimitDb := [''userA'' \<mapsto> \<lparr>count = 5, resetTime = 60000\<rparr>]\<rparr>))
     = RateLimitExceeded 59 \<and>
   snd (postInvoices ''userA'' 1000 exampleBody invoiceSaveRejects
          (exampleServer\<lparr>rateLimitDb := [''userA'' \<mapsto> \<lparr>count = 5, resetTime = 60000\<rparr>]\<rparr>))
     = exampleServer\<lparr>rateLimitDb := [''userA'' \<mapsto> \<lparr>count = 5, resetTime = 60000\<rparr>]\<rparr>"
proof -
  have d: "checkRateLimit ''userA'' 1000 True True [''userA'' \<mapsto> \<lparr>count = 5, resetTime = 60000\<rparr>]
     = (Deny 59, [''userA'' \<mapsto> \<lparr>count = 5, resetTime = 60000\<rparr>])"
    by (simp add: checkRateLimit_def decideAndSave_def findOrNew_def resetIfPassed_def timeLeft_def)
  have r: "fst (postInvoices ''userA'' 1000 exampleBody invoiceSaveRejects
          (exampleServer\<lparr>rateLimitDb := [''userA'' \<mapsto> \<lparr>count = 5, resetTime = 60000\<rparr>]\<rparr>))
     = RateLimitExceeded 59"
    by (simp add: postInvoices_def invoiceSaveRejects_def d)
  from deny_mutates_nothing [of "''userA''" 1000 True True
      "[''userA'' \<mapsto> \<lparr>count = 5, resetTime = 60000\<rparr>]" 59
      "[''userA'' \<mapsto> \<lparr>count = 5, resetTime = 60000\<rparr>]" exampleBody invoiceSaveRejects
      "exampleServer\<lparr>rateLimitDb := [''userA'' \<mapsto> \<lparr>count = 5, resetTime = 60000\<rparr>]\<rparr>"] d r
  show ?thesis by simp
qed

text \<open>
  C8 does not hold of the code. The middleware reads the counter with \<open>findOne\<close>,
  compares and increments it in memory and writes it back with \<open>save()\<close>: the increment
  is not an atomic update of the store. With one slot left in the window (count 4) and
  both reads answered before either save, both requests are admitted, a sixth request
  within the window of ``5 per user per minute'', and the stored count ends at 5.
\<close>

theorem overlapped_double_admit:
  "checkRateLimitOverlapped ''userA'' 1000 1000 [''userA'' \<mapsto> \<lparr>count = 4, resetTime = 60000\<rparr>]
     = (Allow, Allow, [''userA'' \<mapsto> \<lparr>count = 5, resetTime = 60000\<rparr>])"
  by (simp add: checkRateLimitOverlapped_def decideAndSave_def findOrNew_def resetIfPassed_def)

text \<open>
  With exactly one slot left, two requests of the same user that run one after the other
  are not both admitted: the first is admitted and the second rejected. Whenever both
  read the counter before either saves, both are admitted.
\<close>

lemma one_slot_sequential:
  assumes "db uid = Some c" and "count c = 4" and "now1 \<le> resetTime c" and "now2 \<le> resetTime c"
  shows "fst (checkRateLimits uid [now1, now2] db) = [Allow, Deny (timeLeft (resetTime c) now2)] \<and>
         checkRateLimitOverlapped uid now1 now2 db = (Allow, Allow, db(uid \<mapsto> c\<lparr>count := 5\<rparr>))"
  using assms
  by (simp add: checkRateLimit_in_window checkRateLimitOverlapped_def decideAndSave_def
      findOrNew_def resetIfPassed_def)

section \<open>Properties of the job status\<close>

text \<open>What the event stream and the timer callback leave alone.\<close>

lemma sendSSEUpdate_frame:
  "invoiceDb (sendSSEUpdate uid data ok s) = invoiceDb s"
  "timers (sendSSEUpdate uid data ok s) = timers s"
  by (simp_all add: sendSSEUpdate_def split: option.splits)

text \<open>The callback sets no timer and stores no invoice but its own.\<close>

lemma runJob_timers: "timers (snd (runJob uid invoice e s)) = timers s"
  by (simp add: runJob_def generatePDF_def saveInvoice_def sendSSEUpdate_frame Let_def)

lemma runJob_invoiceDb_other:
  "jid \<noteq> inv_id invoice \<Longrightarrow> invoiceDb (snd (runJob uid invoice e s)) jid = invoiceDb s jid"
  by (simp add: runJob_def generatePDF_def saveInvoice_def sendSSEUpdate_frame Let_def
      markReady_def markFailed_def)

text \<open>
  The route stores no invoice but the new one: it either leaves invoices and timers as
  they are, or stores one processing invoice under the new id and sets its timer.
\<close>

lemma postInvoices_invoiceDb_other:
  "jid \<noteq> newId e \<Longrightarrow> invoiceDb (snd (postInvoices uid now b e s)) jid = invoiceDb s jid"
  by (simp add: postInvoices_def createInvoice_def Let_def split_beta split: decision.splits)

lemma postInvoices_timers:
  "timers (snd (postInvoices uid now b e s)) = timers s \<and>
     invoiceDb (snd (postInvoices uid now b e s)) = invoiceDb s \<or>
   (\<exists>invoice. inv_id invoice = newId e \<and> status invoice = Processing \<and>
      timers (snd (postInvoices uid now b e s)) = timers s @ [invoice] \<and>
      invoiceDb (snd (postInvoices uid now b e s)) = (invoiceDb s)(newId e \<mapsto> invoice))"
  by (simp add: postInvoices_def createInvoice_def Let_def split_beta split: decision.splits)

text \<open>Taking an entry out of a list with distinct keys leaves none with its key.\<close>

lemma removed_id_not_left:
  assumes "distinct (map f ts)" and "i < length ts"
  shows "f (ts ! i) \<notin> f ` set (take i ts @ drop (Suc i) ts) \<and>
         distinct (map f (take i ts @ drop (Suc i) ts))"
proof -
  have "ts = take i ts @ ts ! i # drop (Suc i) ts"
    using assms(2) by (rule id_take_nth_drop)
  then have "distinct (map f (take i ts @ ts ! i # drop (Suc i) ts))"
    using assms(1) by simp
  then show ?thesis by auto
qed

text \<open>Every step keeps the pending invoices distinct and stored as processing.\<close>

lemma pendingProcessing_step:
  assumes "pendingProcessing s" and "freshId st s"
  shows "pendingProcessing (serverStep st s)"
proof (cases st)
  case (Post uid now b e)
  with assms(2) have fresh: "invoiceDb s (newId e) = None" by simp
  have notin: "newId e \<notin> inv_id ` set (timers s)"
    using assms(1) fresh by (auto simp add: pendingProcessing_def list_all_iff)
  from postInvoices_timers [of uid now b e s] show ?thesis
  proof
    assume "timers (snd (postInvoices uid now b e s)) = timers s \<and>
      invoiceDb (snd (postInvoices uid now b e s)) = invoiceDb s"
    with assms(1) show ?thesis by (simp add: Post pendingProcessing_def)
  next
    assume "\<exists>invoice. inv_id invoice = newId e \<and> status invoice = Processing \<and>
      timers (snd (postInvoices uid now b e s)) = timers s @ [invoice] \<and>
      invoiceDb (snd (postInvoices uid now b e s)) = (invoiceDb s)(newId e \<mapsto> invoice)"
    then obtain invoice where "inv_id invoice = newId e" "status invoice = Processing"
      "timers (snd (postInvoices uid now b e s)) = timers s @ [invoice]"
      "invoiceDb (snd (postInvoices uid now b e s)) = (invoiceDb s)(newId e \<mapsto> invoice)"
      by blast
    moreover from notin have "\<forall>p\<in>set (timers s). inv_id p \<noteq> newId e"
      by force
    ultimately show ?thesis
      using assms(1) notin by (auto simp add: Post pendingProcessing_def list_all_iff)
  qed
next
  case (Fire i e)
  show ?thesis
  proof (cases "i < length (timers s)")
    case False
    with assms(1) show ?thesis by (simp add: Fire)
  next
    case True
    let ?p = "timers s ! i"
    let ?rest = "take i (timers s) @ drop (Suc i) (timers s)"
    from assms(1) True have rem: "inv_id ?p \<notin> inv_id ` set ?rest" "distinct (map inv_id ?rest)"
      using removed_id_not_left [of inv_id "timers s" i] by (simp_all add: pendingProcessing_def)
    have sub: "set ?rest \<subseteq> set (timers s)"
      by (auto dest: in_set_takeD in_set_dropD)
    have "list_all (\<lambda>p. invoiceDb (snd (runJob (userId ?p) ?p e (s\<lparr>timers := ?rest\<rparr>))) (inv_id p) = Some p
            \<and> status p = Processing) ?rest"
      unfolding list_all_iff
    proof
      fix p assume p: "p \<in> set ?rest"
      with rem(1) have "inv_id p \<noteq> inv_id ?p" by (metis imageI)
      moreover from p sub assms(1) have "invoiceDb s (inv_id p) = Some p \<and> status p = Processing"
        by (auto simp add: pendingProcessing_def list_all_iff)
      ultimately show "invoiceDb (snd (runJob (userId ?p) ?p e (s\<lparr>timers := ?rest\<rparr>))) (inv_id p) = Some p
            \<and> status p = Processing"
        by (simp add: runJob_invoiceDb_other)
    qed
    with rem(2) True show ?thesis
      by (simp add: Fire pendingProcessing_def runJob_timers Let_def)
  qed
next
  case (Subscribe uid res)
  with assms(1) show ?thesis by (simp add: pendingProcessing_def subscribe_def)
next
  case (Disconnect uid)
  with assms(1) show ?thesis by (simp add: pendingProcessing_def disconnect_def)
qed

text \<open>A step does not change a stored invoice whose status is ready or failed.\<close>

lemma terminal_final_step:
  assumes "pendingProcessing s" and "freshId st s"
    and "invoiceDb s jid = Some j" and "status j \<noteq> Processing"
  shows "invoiceDb (serverStep st s) jid = Some j"
proof (cases st)
  case (Post uid now b e)
  with assms(2,3) have "jid \<noteq> newId e" by auto
  with assms(3) show ?thesis by (simp add: Post postInvoices_invoiceDb_other)
next
  case (Fire i e)
  show ?thesis
  proof (cases "i < length (timers s)")
    case False
    with assms(3) show ?thesis by (simp add: Fire)
  next
    case True
    then have "timers s ! i \<in> set (timers s)" by simp
    with assms(1) have "invoiceDb s (inv_id (timers s ! i)) = Some (timers s ! i)"
      "status (timers s ! i) = Processing"
      by (auto simp add: pendingProcessing_def list_all_iff)
    with assms(3,4) have "jid \<noteq> inv_id (timers s ! i)" by auto
    with assms(3) True show ?thesis
      by (simp add: Fire runJob_invoiceDb_other Let_def)
  qed
next
  case (Subscribe uid res)
  with assms(3) show ?thesis by (simp add: subscribe_def)
next
  case (Disconnect uid)
  with assms(3) show ?thesis by (simp add: disconnect_def)
qed

lemma terminal_final_run:
  "pendingProcessing s \<Longrightarrow> freshIds sts s \<Longrightarrow> invoiceDb s jid = Some j \<Longrightarrow> status j \<noteq> Processing \<Longrightarrow>
   invoiceDb (run sts s) jid = Some j"
proof (induction sts arbitrary: s)
  case Nil
  then show ?case by simp
next
  case (Cons st sts)
  from Cons.prems have "pendingProcessing (serverStep st s)"
    by (simp add: pendingProcessing_step)
  moreover from Cons.prems have "invoiceDb (serverStep st s) jid = Some j"
    by (simp add: terminal_final_step)
  ultimately show ?case using Cons.prems by (simp add: Cons.IH)
qed

text \<open>Runs compose, and the facts about one step carry over to them.\<close>

lemma pendingProcessing_run:
  "pendingProcessing s \<Longrightarrow> freshIds sts s \<Longrightarrow> pendingProcessing (run sts s)"
  by (induction sts arbitrary: s) (simp_all add: pendingProcessing_step)

lemma run_append: "run (xs @ ys) s = run ys (run xs s)"
  by (induction xs arbitrary: s) simp_all

lemma freshIds_append: "freshIds (xs @ ys) s = (freshIds xs s \<and> freshIds ys (run xs s))"
  by (induction xs arbitrary: s) simp_all

lemma emptyServer_pendingProcessing: "pendingProcessing emptyServer"
  by (simp add: pendingProcessing_def emptyServer_def)

text \<open>The definitions that evaluate the example runs.\<close>

lemmas example_defs = postInvoices_def createInvoice_def checkRateLimit_def decideAndSave_def
  findOrNew_def resetIfPassed_def postResolves_def exampleBody_def emptyServer_def
  exampleInvoice_def runJob_def generatePDF_def markReady_def markFailed_def saveInvoice_def
  sendSSEUpdate_def filename_def readySaveRejects_def exampleServer_def Let_def allResolve_def
  invoiceSaveRejects_def artifactIffReady_def

text \<open>
  C2, as the claim states it, fails on the code: neither assignment checks the current
  status. On an invoice that \<open>generatePDF\<close> has marked ready, the assignment of the
  \<open>catch\<close> branch changes the status to failed; on a failed invoice the end of
  \<open>generatePDF\<close> sets it to ready.
\<close>

theorem mark_terminal_overwritten_counterexample:
  "status (markReady exampleInvoice) = Ready \<and>
   markFailed (markReady exampleInvoice) \<noteq> markReady exampleInvoice \<and>
   status (markFailed (markReady exampleInvoice)) = Failed \<and>
   status (markFailed exampleInvoice) = Failed \<and>
   status (markReady (markFailed exampleInvoice)) = Ready"
  by (simp add: markReady_def markFailed_def exampleInvoice_def)

text \<open>
  C2, amended. The two completion paths assign the status whatever it was: after the
  success path it is ready with the file name set, after the failure path it is failed
  with the file reference left as it was. Each is idempotent by itself: the same
  operation a second time leaves the invoice in the state set by the first. In the
  server every timer fires once, on an invoice stored as processing, so in every run
  from the empty server (new invoices getting fresh ids) an invoice stored with status
  ready or failed is stored unchanged after any further steps.
\<close>

theorem mark_unconditional_idempotent:
  "status (markReady invoice) = Ready \<and> pdfPath (markReady invoice) = Some (filename invoice) \<and>
   status (markFailed invoice) = Failed \<and> pdfPath (markFailed invoice) = pdfPath invoice \<and>
   markReady (markReady invoice) = markReady invoice \<and>
   markFailed (markFailed invoice) = markFailed invoice \<and>
   (freshIds (before @ later) emptyServer \<and>
    invoiceDb (run before emptyServer) jid = Some j \<and> status j \<noteq> Processing \<longrightarrow>
      invoiceDb (run (before @ later) emptyServer) jid = Some j)"
proof -
  have "invoiceDb (run (before @ later) emptyServer) jid = Some j"
    if "freshIds (before @ later) emptyServer"
      and "invoiceDb (run before emptyServer) jid = Some j" and "status j \<noteq> Processing"
  proof -
    from that(1) have f: "freshIds before emptyServer" "freshIds later (run before emptyServer)"
      by (simp_all add: freshIds_append)
    from emptyServer_pendingProcessing f(1) have "pendingProcessing (run before emptyServer)"
      by (rule pendingProcessing_run)
    from this f(2) that(2,3) have "invoiceDb (run later (run before emptyServer)) jid = Some j"
      by (rule terminal_final_run)
    then show ?thesis by (simp add: run_append)
  qed
  then show ?thesis
    by (simp add: markReady_def markFailed_def filename_def)
qed

text \<open>
  The job created, rendered and saved as ready stays stored as it is while a second job
  is created and fails.
\<close>

theorem mark_unconditional_idempotent_witness:
  "freshIds ([Post ''userA'' 1000 exampleBody postResolves, Fire 0 allResolve]
             @ [Post ''userA'' 2000 exampleBody (postResolves\<lparr>newId := ''j2''\<rparr>), Fire 0 readySaveRejects]) emptyServer \<and>
   invoiceDb (run [Post ''userA'' 1000 exampleBody postResolves, Fire 0 allResolve] emptyServer) ''j1''
     = Some (markReady exampleInvoice) \<and>
   status (markReady exampleInvoice) \<noteq> Processing \<and>
   invoiceDb (run ([Post ''userA'' 1000 exampleBody postResolves, Fire 0 allResolve]
             @ [Post ''userA'' 2000 exampleBody (postResolves\<lparr>newId := ''j2''\<rparr>), Fire 0 readySaveRejects]) emptyServer) ''j1''
     = Some (markReady exampleInvoice)"
proof -
  have a: "invoiceDb (run [Post ''userA'' 1000 exampleBody postResolves, Fire 0 allResolve] emptyServer) ''j1''
     = Some (markReady exampleInvoice)"
    by (simp add: example_defs)
  have b: "status (markReady exampleInvoice) \<noteq> Processing"
    by (simp add: markReady_def)
  have c: "freshIds ([Post ''userA'' 1000 exampleBody postResolves, Fire 0 allResolve]
             @ [Post ''userA'' 2000 exampleBody (postResolves\<lparr>newId := ''j2''\<rparr>), Fire 0 readySaveRejects]) emptyServer"
    by (simp add: example_defs)
  from mark_unconditional_idempotent [of exampleInvoice
      "[Post ''userA'' 1000 exampleBody postResolves, Fire 0 allResolve]"
      "[Post ''userA'' 2000 exampleBody (postResolves\<lparr>newId := ''j2''\<rparr>), Fire 0 readySaveRejects]"
      "''j1''" "markReady exampleInvoice"] a b c
  show ?thesis by (simp del: run.simps freshIds.simps serverStep.simps)
qed

text \<open>A created invoice has status processing and no file reference.\<close>

lemma created_artifactIffReady:
  "createInvoice uid b nid True s = (Created invoice, s') \<Longrightarrow>
   artifactIffReady invoice \<and> status invoice = Processing \<and> invoiceDb s' nid = Some invoice"
  by (auto simp add: createInvoice_def artifactIffReady_def Let_def)

text \<open>
  The timer callback keeps the invariant on the invoice it holds whenever the \<open>save()\<close>
  at the end of \<open>generatePDF\<close> resolves or the rendering itself fails.
\<close>

lemma runJob_artifactIffReady:
  assumes "artifactIffReady invoice" and "status invoice = Processing"
    and "readySaveOk e \<or> \<not> (renderOk e \<or> fallbackOk e)"
  shows "artifactIffReady (fst (runJob uid invoice e s))"
  using assms
  by (auto simp add: runJob_def generatePDF_def markReady_def markFailed_def
      artifactIffReady_def Let_def)

text \<open>What the callback leaves stored for its invoice is the old document or the one it holds.\<close>

lemma runJob_stored:
  "invoiceDb (snd (runJob uid invoice e s)) (inv_id invoice) = invoiceDb s (inv_id invoice) \<or>
   invoiceDb (snd (runJob uid invoice e s)) (inv_id invoice) = Some (fst (runJob uid invoice e s))"
  by (simp add: runJob_def generatePDF_def saveInvoice_def sendSSEUpdate_frame Let_def
      markReady_def markFailed_def)

text \<open>
  In every run from the empty server in which the \<open>save()\<close> at the end of \<open>generatePDF\<close>
  is never the call that fails, every stored invoice has its file reference exactly when it
  is ready.
\<close>

lemma stored_artifact_step:
  assumes "pendingProcessing s" and "freshId st s" and "readySaved st"
    and "\<forall>jid j. invoiceDb s jid = Some j \<longrightarrow> artifactIffReady j"
  shows "\<forall>jid j. invoiceDb (serverStep st s) jid = Some j \<longrightarrow> artifactIffReady j"
proof (cases st)
  case (Post uid now b e)
  from postInvoices_timers [of uid now b e s] assms(4) show ?thesis
    by (auto simp add: Post artifactIffReady_def postInvoices_def createInvoice_def Let_def split_beta
        split: decision.splits if_splits)
next
  case (Fire i e)
  show ?thesis
  proof (cases "i < length (timers s)")
    case False
    with assms(4) show ?thesis by (simp add: Fire)
  next
    case True
    let ?p = "timers s ! i"
    let ?s = "s\<lparr>timers := take i (timers s) @ drop (Suc i) (timers s)\<rparr>"
    from True have "?p \<in> set (timers s)" by simp
    with assms(1) have p: "invoiceDb s (inv_id ?p) = Some ?p" "status ?p = Processing"
      by (auto simp add: pendingProcessing_def list_all_iff)
    with assms(4) have "artifactIffReady ?p" by blast
    with p(2) assms(3) have new: "artifactIffReady (fst (runJob (userId ?p) ?p e ?s))"
      by (intro runJob_artifactIffReady) (simp_all add: Fire)
    show ?thesis
    proof (intro allI impI)
      fix jid j
      assume j: "invoiceDb (serverStep st s) jid = Some j"
      show "artifactIffReady j"
      proof (cases "jid = inv_id ?p")
        case False
        with j True assms(4) show ?thesis
          by (simp add: Fire Let_def runJob_invoiceDb_other)
      next
        case same: True
        from runJob_stored [of "userId ?p" ?p e ?s] show ?thesis
        proof
          assume "invoiceDb (snd (runJob (userId ?p) ?p e ?s)) (inv_id ?p) = invoiceDb ?s (inv_id ?p)"
          with j True same assms(4) show ?thesis
            by (simp add: Fire Let_def)
        next
          assume "invoiceDb (snd (runJob (userId ?p) ?p e ?s)) (inv_id ?p)
                    = Some (fst (runJob (userId ?p) ?p e ?s))"
          with j True same new show ?thesis
            by (simp add: Fire Let_def)
        qed
      qed
    qed
  qed
next
  case (Subscribe uid res)
  with assms(4) show ?thesis by (simp add: subscribe_def)
next
  case (Disconnect uid)
  with assms(4) show ?thesis by (simp add: disconnect_def)
qed

lemma stored_artifact_run:
  "pendingProcessing s \<Longrightarrow> freshIds sts s \<Longrightarrow> list_all readySaved sts \<Longrightarrow>
   \<forall>jid j. invoiceDb s jid = Some j \<longrightarrow> artifactIffReady j \<Longrightarrow>
   \<forall>jid j. invoiceDb (run sts s) jid = Some j \<longrightarrow> artifactIffReady j"
proof (induction sts arbitrary: s)
  case Nil
  then show ?case by simp
next
  case (Cons st sts)
  from Cons.prems have "pendingProcessing (serverStep st s)"
    by (simp add: pendingProcessing_step)
  moreover from Cons.prems
  have "\<forall>jid j. invoiceDb (serverStep st s) jid = Some j \<longrightarrow> artifactIffReady j"
    by (intro stored_artifact_step) simp_all
  ultimately have "\<forall>jid j. invoiceDb (run sts (serverStep st s)) jid = Some j \<longrightarrow> artifactIffReady j"
    using Cons.prems by (intro Cons.IH) simp_all
  then show ?case by simp
qed

lemma stored_artifact_from_empty:
  "freshIds sts emptyServer \<Longrightarrow> list_all readySaved sts \<Longrightarrow> invoiceDb (run sts emptyServer) jid = Some j \<Longrightarrow>
   artifactIffReady j"
  using stored_artifact_run [of emptyServer sts] emptyServer_pendingProcessing
  by (simp add: emptyServer_def)

text \<open>
  C3 does not hold of the failure path when it is entered from the \<open>save()\<close> at the end
  of \<open>generatePDF\<close>: the invoice has been given its file name and the status ready in
  memory, the \<open>catch\<close> branch only overwrites the status, and its \<open>save()\<close> stores an
  invoice that is failed and has a file reference. The run that creates the invoice and
  then fires its timer with these outcomes reaches such a stored invoice.
\<close>

theorem failed_job_keeps_pdfPath:
  "fst (runJob ''userA'' exampleInvoice readySaveRejects exampleServer)
     = exampleInvoice\<lparr>status := Failed, pdfPath := Some ''invoice-j1.pdf''\<rparr> \<and>
   \<not> artifactIffReady (fst (runJob ''userA'' exampleInvoice readySaveRejects exampleServer)) \<and>
   invoiceDb (run [Post ''userA'' 1000 exampleBody postResolves, Fire 0 readySaveRejects] emptyServer) ''j1''
     = Some (exampleInvoice\<lparr>status := Failed, pdfPath := Some ''invoice-j1.pdf''\<rparr>)"
  by (simp add: example_defs)

section \<open>Properties of the download\<close>




text \<open>
  C9. A download by the owner of a ready invoice whose file reference is set answers
  404 ``PDF file not found'' when the file is not in the directory \<open>pdfs\<close>: the status
  ready does not guarantee that the download succeeds.
\<close>

theorem download_ready_file_missing:
  assumes "invoiceDb s jid = Some invoice" and "userId invoice = uid"
    and "status invoice = Ready" and "pdfPath invoice = Some path" and "path \<noteq> []"
    and "path \<notin> pdfs s"
  shows "download wellFormed jid uid True s = Error 404 ''PDF file not found''"
  using assms by (simp add: download_def findInvoice_def castsToObjectId_def)

theorem download_ready_file_missing_witness:
  "invoiceDb (exampleServer\<lparr>invoiceDb :=
       [''64b7f0c2a1d3e4f5a6b7c8d9'' \<mapsto> markReady exampleHexInvoice]\<rparr>) ''64b7f0c2a1d3e4f5a6b7c8d9''
     = Some (markReady exampleHexInvoice) \<and>
   userId (markReady exampleHexInvoice) = ''userA'' \<and>
   status (markReady exampleHexInvoice) = Ready \<and>
   pdfPath (markReady exampleHexInvoice) = Some ''invoice-64b7f0c2a1d3e4f5a6b7c8d9.pdf'' \<and>
   ''invoice-64b7f0c2a1d3e4f5a6b7c8d9.pdf'' \<notin> pdfs (exampleServer\<lparr>invoiceDb :=
       [''64b7f0c2a1d3e4f5a6b7c8d9'' \<mapsto> markReady exampleHexInvoice]\<rparr>) \<and>
   download hexObjectId ''64b7f0c2a1d3e4f5a6b7c8d9'' ''userA'' True
       (exampleServer\<lparr>invoiceDb := [''64b7f0c2a1d3e4f5a6b7c8d9'' \<mapsto> markReady exampleHexInvoice]\<rparr>)
     = Error 404 ''PDF file not found''"
proof -
  let ?s = "exampleServer\<lparr>invoiceDb := [''64b7f0c2a1d3e4f5a6b7c8d9'' \<mapsto> markReady exampleHexInvoice]\<rparr>"
  have a: "invoiceDb ?s ''64b7f0c2a1d3e4f5a6b7c8d9'' = Some (markReady exampleHexInvoice)"
    by simp
  have b: "userId (markReady exampleHexInvoice) = ''userA''"
    by (simp add: markReady_def exampleHexInvoice_def exampleInvoice_def)
  have c: "status (markReady exampleHexInvoice) = Ready"
    by (simp add: markReady_def)
  have d: "pdfPath (markReady exampleHexInvoice) = Some ''invoice-64b7f0c2a1d3e4f5a6b7c8d9.pdf''"
    by (simp add: markReady_def filename_def exampleHexInvoice_def)
  have e: "''invoice-64b7f0c2a1d3e4f5a6b7c8d9.pdf'' \<noteq> []"
    by simp
  have f: "''invoice-64b7f0c2a1d3e4f5a6b7c8d9.pdf'' \<notin> pdfs ?s"
    by (simp add: exampleServer_def)
  from download_ready_file_missing [OF a b c d e f, of hexObjectId] a b c d f show ?thesis
    by simp
qed

section \<open>Properties of the event streams\<close>

text \<open>
  C7. For every user and event, \<open>sendSSEUpdate\<close> to a user without a registered
  connection returns with the server state unchanged: nothing is written, nothing is
  kept for later, and the registry is as before. To a user with a registered connection
  it writes the event at most once, to that connection only, and the registry is either
  as before or without this user's registration (after a failed write).
\<close>

theorem publish_without_subscriber:
  "(sseClients s uid = None \<longrightarrow> sendSSEUpdate uid data ok s = s) \<and>
   (sseClients s uid = Some client \<longrightarrow>
      (\<exists>k\<le>1. written (sendSSEUpdate uid data ok s) = written s @ replicate k (client, data)) \<and>
      (sseClients (sendSSEUpdate uid data ok s) = sseClients s \<or>
       sseClients (sendSSEUpdate uid data ok s) = (sseClients s)(uid := None)))"
  by (auto simp add: sendSSEUpdate_def intro: exI [of _ "1::nat"])

theorem publish_without_subscriber_witness:
  "sseClients exampleServer ''userA'' = None \<and>
   sendSSEUpdate ''userA'' (InvoiceReady ''j1'') True exampleServer = exampleServer \<and>
   sseClients (exampleServer\<lparr>sseClients := [''userA'' \<mapsto> 7]\<rparr>) ''userA'' = Some 7 \<and>
   written (sendSSEUpdate ''userA'' (InvoiceReady ''j1'') True
              (exampleServer\<lparr>sseClients := [''userA'' \<mapsto> 7]\<rparr>)) = [(7, InvoiceReady ''j1'')]"
proof -
  have a: "sseClients exampleServer ''userA'' = None"
    by (simp add: exampleServer_def)
  have b: "sseClients (exampleServer\<lparr>sseClients := [''userA'' \<mapsto> 7]\<rparr>) ''userA'' = Some 7"
    by simp
  have c: "written (sendSSEUpdate ''userA'' (InvoiceReady ''j1'') True
              (exampleServer\<lparr>sseClients := [''userA'' \<mapsto> 7]\<rparr>)) = [(7, InvoiceReady ''j1'')]"
    by (simp add: sendSSEUpdate_def exampleServer_def)
  from publish_without_subscriber [of exampleServer "''userA''" "InvoiceReady ''j1''" True 7]
    publish_without_subscriber [of "exampleServer\<lparr>sseClients := [''userA'' \<mapsto> 7]\<rparr>" "''userA''"
      "InvoiceReady ''j1''" True 7] a b c
  show ?thesis by simp
qed


section \<open>Properties of the creation route\<close>

text \<open>The route leaves in the \<open>RateLimit\<close> collection what the middleware left.\<close>

lemma postInvoices_rateLimitDb:
  "rateLimitDb (snd (postInvoices uid now b e s))
     = snd (checkRateLimit uid now (findOk e) (limitSaveOk e) (rateLimitDb s))"
  by (simp add: postInvoices_def createInvoice_def Let_def split_beta split: decision.splits)

text \<open>An invoice is only created for a request that the middleware admitted.\<close>

lemma created_only_if_allowed:
  "isCreated (fst (postInvoices uid now b e s)) \<Longrightarrow>
   fst (checkRateLimit uid now (findOk e) (limitSaveOk e) (rateLimitDb s)) = Allow"
  by (simp add: postInvoices_def isCreated_def split_beta Let_def split: decision.splits)

lemma created_le_allowed:
  "length (filter (\<lambda>(d, r). isCreated r) (fst (postAll uid reqs s)))
     \<le> length (filter (\<lambda>(d, r). d = Allow) (fst (postAll uid reqs s)))"
proof (induction reqs arbitrary: s)
  case Nil
  then show ?case by simp
next
  case (Cons req reqs)
  obtain now b e where req: "req = (now, b, e)" by (cases req)
  let ?s' = "snd (postInvoices uid now b e s)"
  have step: "isCreated (fst (postInvoices uid now b e s)) \<longrightarrow>
     fst (checkRateLimit uid now (findOk e) (limitSaveOk e) (rateLimitDb s)) = Allow"
    using created_only_if_allowed by blast
  from Cons.IH [of ?s'] step show ?case
    by (simp add: req split_beta Let_def)
qed

text \<open>An admitted request stores the counter it worked on, incremented by one.\<close>

lemma allow_consumes_slot:
  assumes "fst (checkRateLimit uid now fOk sOk db) = Allow"
  shows "snd (checkRateLimit uid now fOk sOk db) uid
    = Some \<lparr>count = count (resetIfPassed now (findOrNew uid now db)) + 1,
            resetTime = resetTime (resetIfPassed now (findOrNew uid now db))\<rparr>"
  using assms
  by (cases "resetIfPassed now (findOrNew uid now db)")
     (simp add: checkRateLimit_def decideAndSave_def Let_def split: if_splits)

text \<open>
  C10. A request that the rate limiter admits consumes its slot even if the creation of
  the invoice fails afterwards: the counter has been incremented and saved before the
  handler runs, a failed \<open>invoice.save()\<close> answers 500 and creates and schedules nothing,
  and the stored counter keeps the increment. The timer callback never touches the
  counters. So in every sequence of a user's requests the invoices created are at most
  as many as the requests admitted.
\<close>

theorem admitted_slot_not_refunded:
  "(fst (checkRateLimit uid now (findOk e) (limitSaveOk e) (rateLimitDb s)) = Allow \<and>
    \<not> invoiceSaveOk e \<longrightarrow>
      fst (postInvoices uid now b e s) = Error 500 ''Internal server error'' \<and>
      invoiceDb (snd (postInvoices uid now b e s)) = invoiceDb s \<and>
      timers (snd (postInvoices uid now b e s)) = timers s \<and>
      rateLimitDb (snd (postInvoices uid now b e s)) uid
        = Some \<lparr>count = count (resetIfPassed now (findOrNew uid now (rateLimitDb s))) + 1,
                resetTime = resetTime (resetIfPassed now (findOrNew uid now (rateLimitDb s)))\<rparr>) \<and>
   rateLimitDb (snd (runJob uid invoice je s)) = rateLimitDb s \<and>
   length (filter (\<lambda>(d, r). isCreated r) (fst (postAll uid reqs s)))
     \<le> length (filter (\<lambda>(d, r). d = Allow) (fst (postAll uid reqs s)))"
proof (intro conjI impI)
  assume a: "fst (checkRateLimit uid now (findOk e) (limitSaveOk e) (rateLimitDb s)) = Allow \<and>
    \<not> invoiceSaveOk e"
  then show "fst (postInvoices uid now b e s) = Error 500 ''Internal server error''"
    by (simp add: postInvoices_def createInvoice_def split_beta Let_def)
  from a show "invoiceDb (snd (postInvoices uid now b e s)) = invoiceDb s"
    by (simp add: postInvoices_def createInvoice_def split_beta Let_def)
  from a show "timers (snd (postInvoices uid now b e s)) = timers s"
    by (simp add: postInvoices_def createInvoice_def split_beta Let_def)
  from a show "rateLimitDb (snd (postInvoices uid now b e s)) uid
        = Some \<lparr>count = count (resetIfPassed now (findOrNew uid now (rateLimitDb s))) + 1,
                resetTime = resetTime (resetIfPassed now (findOrNew uid now (rateLimitDb s)))\<rparr>"
    by (simp add: postInvoices_rateLimitDb allow_consumes_slot)
next
  show "rateLimitDb (snd (runJob uid invoice je s)) = rateLimitDb s"
    by (simp add: runJob_def generatePDF_def saveInvoice_def sendSSEUpdate_def Let_def
        split: option.splits)
next
  show "length (filter (\<lambda>(d, r). isCreated r) (fst (postAll uid reqs s)))
     \<le> length (filter (\<lambda>(d, r). d = Allow) (fst (postAll uid reqs s)))"
    by (rule created_le_allowed)
qed

theorem admitted_slot_not_refunded_witness:
  "fst (checkRateLimit ''userA'' 1000 (findOk invoiceSaveRejects) (limitSaveOk invoiceSaveRejects)
          (rateLimitDb exampleServer)) = Allow \<and>
   \<not> invoiceSaveOk invoiceSaveRejects \<and>
   fst (postInvoices ''userA'' 1000 exampleBody invoiceSaveRejects exampleServer)
     = Error 500 ''Internal server error'' \<and>
   invoiceDb (snd (postInvoices ''userA'' 1000 exampleBody invoiceSaveRejects exampleServer))
     = invoiceDb exampleServer \<and>
   rateLimitDb (snd (postInvoices ''userA'' 1000 exampleBody invoiceSaveRejects exampleServer)) ''userA''
     = Some \<lparr>count = 1, resetTime = 61000\<rparr>"
proof -
  have a: "fst (checkRateLimit ''userA'' 1000 (findOk invoiceSaveRejects)
             (limitSaveOk invoiceSaveRejects) (rateLimitDb exampleServer)) = Allow"
    by (simp add: checkRateLimit_def decideAndSave_def findOrNew_def resetIfPassed_def
        invoiceSaveRejects_def exampleServer_def)
  have b: "\<not> invoiceSaveOk invoiceSaveRejects"
    by (simp add: invoiceSaveRejects_def)
  have c: "resetIfPassed 1000 (findOrNew ''userA'' 1000 (rateLimitDb exampleServer))
             = \<lparr>count = 0, resetTime = 61000\<rparr>"
    by (simp add: findOrNew_def resetIfPassed_def exampleServer_def)
  from admitted_slot_not_refunded [of "''userA''" 1000 invoiceSaveRejects exampleServer exampleBody
      exampleInvoice readySaveRejects "[]"] a b c
  show ?thesis by simp
qed

end
